theory Spec2Isabelle
  imports Complex_Main
begin

section \<open>Values shared by the two applications\<close>

text \<open>
  \<^verbatim>\<open>appWithSqlite.py\<close> and \<^verbatim>\<open>appWithLimiter.py\<close> hold the same six handlers over one
  SQLite table; the second adds a rate limiter dependency to every route and a
  rejection callback. The handlers are modelled once.
\<close>

subsection \<open>Python's \<^verbatim>\<open>str\<close> on integers\<close>

text \<open>The f-strings of the handlers render an \<^verbatim>\<open>int\<close> in decimal, with a minus sign
  when it is negative.\<close>

definition digit_char :: "nat \<Rightarrow> char" where
  "digit_char d = ''0123456789'' ! d"

fun str_nat :: "nat \<Rightarrow> string" where
  "str_nat n = (if n < 10 then [digit_char n] else str_nat (n div 10) @ [digit_char (n mod 10)])"

declare str_nat.simps [simp del]

definition str_int :: "int \<Rightarrow> string" where
  "str_int i = (if i < 0 then CHR ''-'' # str_nat (nat (- i)) else str_nat (nat i))"

subsection \<open>Status codes, errors and responses\<close>

definition HTTP_204_NO_CONTENT :: nat where "HTTP_204_NO_CONTENT = 204"
definition HTTP_404_NOT_FOUND :: nat where "HTTP_404_NOT_FOUND = 404"
definition HTTP_429_TOO_MANY_REQUESTS :: nat where "HTTP_429_TOO_MANY_REQUESTS = 429"

text \<open>A route without \<^verbatim>\<open>status_code\<close> answers 200.\<close>

definition HTTP_200_OK :: nat where "HTTP_200_OK = 200"

text \<open>
  What a handler raises. \<^verbatim>\<open>HTTPException(status_code, detail, headers)\<close> has
  \<^verbatim>\<open>headers = None\<close> unless given. \<open>TypeError\<close> is what \<^verbatim>\<open>dict(None)\<close> raises
  when \<^verbatim>\<open>fetchone()\<close> found no row. \<open>OverflowError\<close> is what \<^verbatim>\<open>cursor.execute\<close>
  raises when a parameter is a Python \<^verbatim>\<open>int\<close> that does not fit SQLite's \<^verbatim>\<open>INTEGER\<close>. No
  handler catches the last two, so the client sees status 500.
\<close>

datatype error =
  HTTPException (status_code: nat) (detail: string) (headers: "(string \<times> string) list option")
  | TypeError
  | OverflowError

section \<open>The posts table\<close>

text \<open>
  The request model \<^verbatim>\<open>Post(BaseModel)\<close>: \<^verbatim>\<open>published\<close> defaults to \<^verbatim>\<open>True\<close> and
  \<^verbatim>\<open>rating\<close> to \<^verbatim>\<open>None\<close> when the body leaves them out.
\<close>

record Post =
  title :: string
  content :: string
  published :: bool
  rating :: "int option"


text \<open>
  A row of
  \<^verbatim>\<open>CREATE TABLE posts (id INTEGER PRIMARY KEY AUTOINCREMENT, title TEXT NOT NULL,
  content TEXT NOT NULL, published BOOLEAN DEFAULT TRUE, rating INTEGER)\<close>
  as \<^verbatim>\<open>dict(row)\<close> shows it. SQLite has no boolean storage class: the \<^verbatim>\<open>sqlite3\<close>
  module binds a Python \<^verbatim>\<open>bool\<close> as the integer 0 or 1 (\<^verbatim>\<open>TRUE\<close> is 1 in SQLite), and
  that integer is what is read back.
\<close>

record row =
  row_id :: int
  row_title :: string
  row_content :: string
  row_published :: int
  row_rating :: "int option"

definition adapt_bool :: "bool \<Rightarrow> int" where
  "adapt_bool b = (if b then 1 else 0)"

text \<open>
  The database file: the rows of \<^verbatim>\<open>posts\<close> in rowid order, and the entry of
  \<^verbatim>\<open>sqlite_sequence\<close> for the table, which \<^verbatim>\<open>AUTOINCREMENT\<close> keeps at the largest
  rowid ever assigned (0 while none was). The rowids that SQLite assigns are taken
  from the unbounded integers: the table would have to receive \<open>2 ^ 63 - 1\<close> insertions
  before they run out.
\<close>

record db =
  posts :: "row list"
  sqlite_sequence :: int

text \<open>\<^verbatim>\<open>init_db\<close> on a fresh file: an empty table.\<close>

definition init_db :: db where
  "init_db = \<lparr>posts = [], sqlite_sequence = 0\<rparr>"

subsection \<open>Binding the parameters of a statement\<close>

text \<open>
  \<^verbatim>\<open>cursor.execute(sql, parameters)\<close> binds every parameter before the statement runs.
  A Python \<^verbatim>\<open>int\<close> is bound as a signed 64-bit \<^verbatim>\<open>INTEGER\<close>; one outside that range
  makes \<^verbatim>\<open>execute\<close> raise \<^verbatim>\<open>OverflowError\<close>, and the statement does not run. \<^verbatim>\<open>None\<close>
  is bound as \<^verbatim>\<open>NULL\<close>, a \<^verbatim>\<open>bool\<close> as 0 or 1 and a \<^verbatim>\<open>str\<close> as text. The path
  parameter \<^verbatim>\<open>id: int\<close> and the field \<^verbatim>\<open>rating: Optional[int]\<close> accept every integer,
  so both can fail to bind.
\<close>

definition fits_int64 :: "int \<Rightarrow> bool" where
  "fits_int64 i \<longleftrightarrow> - (2 ^ 63) \<le> i \<and> i < 2 ^ 63"

definition binds :: "int option \<Rightarrow> bool" where
  "binds v = (case v of None \<Rightarrow> True | Some i \<Rightarrow> fits_int64 i)"

subsection \<open>The SQL statements the handlers execute\<close>

text \<open>\<^verbatim>\<open>SELECT * FROM posts\<close> with \<^verbatim>\<open>fetchall()\<close>.\<close>

definition select_all :: "db \<Rightarrow> row list" where
  "select_all d = posts d"

text \<open>The first row of the table with a given id, as \<^verbatim>\<open>fetchone()\<close> returns it, or
  \<^verbatim>\<open>None\<close>.\<close>

definition fetchone_by_id :: "int \<Rightarrow> db \<Rightarrow> row option" where
  "fetchone_by_id i d = find (\<lambda>r. row_id r = i) (posts d)"

text \<open>\<^verbatim>\<open>cursor.execute("SELECT * FROM posts WHERE id = ?", (id,))\<close> with \<^verbatim>\<open>fetchone()\<close>.\<close>

definition select_by_id :: "int \<Rightarrow> db \<Rightarrow> error + row option" where
  "select_by_id i d = (if fits_int64 i then Inr (fetchone_by_id i d) else Inl OverflowError)"




text \<open>\<^verbatim>\<open>cursor.execute("DELETE FROM posts WHERE id = ?", (id,))\<close> and \<^verbatim>\<open>commit()\<close>; the
  first component is \<^verbatim>\<open>cursor.rowcount\<close>, the number of rows deleted.\<close>

definition delete_by_id :: "int \<Rightarrow> db \<Rightarrow> error + nat \<times> db" where
  "delete_by_id i d =
     (if fits_int64 i
      then Inr (length (filter (\<lambda>r. row_id r = i) (posts d)),
                d\<lparr>posts := filter (\<lambda>r. row_id r \<noteq> i) (posts d)\<rparr>)
      else Inl OverflowError)"

text \<open>\<^verbatim>\<open>UPDATE posts SET title = ?, content = ?, published = ?, rating = ? WHERE id = ?\<close>
  with the parameters \<^verbatim>\<open>(post.title, post.content, post.published, post.rating, id)\<close>,
  and \<^verbatim>\<open>commit()\<close>; \<^verbatim>\<open>cursor.rowcount\<close> counts the rows the \<^verbatim>\<open>WHERE\<close> clause
  matched.\<close>

definition set_columns :: "Post \<Rightarrow> row \<Rightarrow> row" where
  "set_columns p r =
     r\<lparr>row_title := title p, row_content := content p,
       row_published := adapt_bool (published p), row_rating := rating p\<rparr>"

definition update_by_id :: "int \<Rightarrow> Post \<Rightarrow> db \<Rightarrow> error + nat \<times> db" where
  "update_by_id i p d =
     (if binds (rating p) \<and> fits_int64 i
      then Inr (length (filter (\<lambda>r. row_id r = i) (posts d)),
                d\<lparr>posts := map (\<lambda>r. if row_id r = i then set_columns p r else r) (posts d)\<rparr>)
      else Inl OverflowError)"

subsection \<open>The handlers\<close>

text \<open>The JSON a handler returns; \<open>No_body\<close> is the empty \<^verbatim>\<open>Response\<close> of
  \<^verbatim>\<open>delete_post\<close>.\<close>

datatype body =
  Message string
  | Data_list "row list"
  | Data row
  | Post_detail row
  | No_body

type_synonym response = "nat \<times> body"

text \<open>A handler answers or raises, and leaves a database behind. An exception of
  \<^verbatim>\<open>execute\<close> leaves the handler at once, with the database as it was before the
  statement.\<close>

type_synonym 'a handler = "db \<Rightarrow> (error + 'a) \<times> db"




definition get_post :: "int \<Rightarrow> response handler" where
  "get_post i d =
     (case select_by_id i d of
        Inl e \<Rightarrow> (Inl e, d)
      | Inr None \<Rightarrow>
          (Inl (HTTPException HTTP_404_NOT_FOUND
                  (''post with id: '' @ str_int i @ '' was not found'') None), d)
      | Inr (Some post) \<Rightarrow> (Inr (HTTP_200_OK, Post_detail post), d))"

definition delete_post :: "int \<Rightarrow> response handler" where
  "delete_post i d =
     (case delete_by_id i d of
        Inl e \<Rightarrow> (Inl e, d)
      | Inr (rowcount, d') \<Rightarrow>
          if rowcount = 0
          then (Inl (HTTPException HTTP_404_NOT_FOUND
                       (''post with id: '' @ str_int i @ '' does not exist'') None), d')
          else (Inr (HTTP_204_NO_CONTENT, No_body), d'))"

definition update_post :: "int \<Rightarrow> Post \<Rightarrow> response handler" where
  "update_post i post d =
     (case update_by_id i post d of
        Inl e \<Rightarrow> (Inl e, d)
      | Inr (rowcount, d') \<Rightarrow>
          if rowcount = 0
          then (Inl (HTTPException HTTP_404_NOT_FOUND
                       (''post with id: '' @ str_int i @ '' does not exist'') None), d')
          else (case select_by_id i d' of
                  Inl e \<Rightarrow> (Inl e, d')
                | Inr None \<Rightarrow> (Inl TypeError, d')
                | Inr (Some updated_post) \<Rightarrow> (Inr (HTTP_200_OK, Data updated_post), d')))"






text \<open>
  The state every run from \<open>init_db\<close> keeps: \<^verbatim>\<open>id\<close> is the primary key, so no two rows
  share one, and no row has an id above the \<^verbatim>\<open>sqlite_sequence\<close> entry.
\<close>

definition wf_db :: "db \<Rightarrow> bool" where
  "wf_db d \<longleftrightarrow>
     distinct (map row_id (posts d)) \<and> list_all (\<lambda>r. row_id r \<le> sqlite_sequence d) (posts d)"

section \<open>The rate-limited application\<close>

subsection \<open>The rejection callback\<close>

text \<open>
  \<^verbatim>\<open>custom_callback(request, response, pexpire)\<close> reads only \<^verbatim>\<open>pexpire\<close>, the
  milliseconds left of the window, and always raises.
  \<^verbatim>\<open>ceil(pexpire / 1000)\<close> is a true division followed by \<^verbatim>\<open>math.ceil\<close>. Python
  rounds the quotient of the two integers to the nearest double. While
  \<open>\<bar>pexpire\<bar> < 2 ^ 53\<close> the quotient is below \<open>2 ^ 44\<close>, so the rounding moves it by at
  most \<open>1 / 1024\<close>, and an integer quotient is not moved at all; a quotient that is not
  an integer lies \<open>1 / 1000\<close> or more from the integers around it, so the ceiling of the
  double is the ceiling of the exact quotient. The model takes the exact quotient, and
  the property of the callback is stated in that range.
\<close>

definition custom_callback :: "int \<Rightarrow> error" where
  "custom_callback pexpire =
     (let expire = \<lceil>real_of_int pexpire / 1000\<rceil>
      in HTTPException HTTP_429_TOO_MANY_REQUESTS
           (''Too Many Requests. Retry after '' @ str_int expire @ '' seconds.'')
           (Some [(''Retry-After'', str_int expire)]))"

subsection \<open>The policies of the routes\<close>

datatype http_method = GET | POST | PUT | DELETE

text \<open>\<^verbatim>\<open>RateLimiter(times=n, seconds=s)\<close>: at most \<open>n\<close> requests in \<open>s\<close> seconds.\<close>

record RateLimitPolicy =
  maxRequests :: nat
  windowSeconds :: nat

definition RateLimiter :: "nat \<Rightarrow> nat \<Rightarrow> RateLimitPolicy" where
  "RateLimiter n s = \<lparr>maxRequests = n, windowSeconds = s\<rparr>"

record route =
  route_method :: http_method
  route_path :: string
  dependencies :: "RateLimitPolicy list"

text \<open>The decorators of \<^verbatim>\<open>appWithLimiter.py\<close>, in the order of the file.\<close>

definition routes :: "route list" where
  "routes =
     [\<lparr>route_method = GET, route_path = ''/'', dependencies = [RateLimiter 2 5]\<rparr>,
      \<lparr>route_method = GET, route_path = ''/posts'', dependencies = [RateLimiter 30 60]\<rparr>,
      \<lparr>route_method = POST, route_path = ''/posts'', dependencies = [RateLimiter 5 60]\<rparr>,
      \<lparr>route_method = GET, route_path = ''/posts/{id}'', dependencies = [RateLimiter 20 60]\<rparr>,
      \<lparr>route_method = DELETE, route_path = ''/posts/{id}'', dependencies = [RateLimiter 3 60]\<rparr>,
      \<lparr>route_method = PUT, route_path = ''/posts/{id}'', dependencies = [RateLimiter 10 60]\<rparr>]"

text \<open>Every policy attached to a method and path template.\<close>

definition policies :: "http_method \<Rightarrow> string \<Rightarrow> RateLimitPolicy list" where
  "policies m p =
     concat (map dependencies (filter (\<lambda>r. route_method r = m \<and> route_path r = p) routes))"

subsection \<open>The limiter's evaluation\<close>

text \<open>
  Modelled from the spec: the body of the \<^verbatim>\<open>RateLimiter\<close> dependency and the counter
  store behind it belong to the \<^verbatim>\<open>fastapi_limiter\<close> package and a Redis server; the
  application only constructs the dependency. The definitions below follow steps 1 to
  5 of the spec's \<^verbatim>\<open>evaluate\<close> and its data model: a key is the caller together with the
  method and path template of the route; a counter holds the requests consumed in the
  current window and the instant, in milliseconds, at which the window ends; the
  remaining time-to-live at \<open>now\<close> is the distance to that instant. A counter created at
  \<open>t\<close> with a window of \<open>w\<close> seconds serves the requests up to \<open>t + 1000 * w\<close> and is
  expired for every later one.
\<close>

record RateLimitKey =
  client :: string
  key_method :: http_method
  key_path :: string

record RateLimitState =
  count :: nat
  expires_at :: int

datatype Decision = Admit | Reject (retryAfterMillis: int)

type_synonym store = "RateLimitKey \<rightharpoonup> RateLimitState"

definition window_millis :: "RateLimitPolicy \<Rightarrow> int" where
  "window_millis pol = 1000 * int (windowSeconds pol)"

text \<open>Modelled from the spec: step 2 of \<^verbatim>\<open>evaluate\<close>, the increment of the counter of a
  key. A key with no counter, or with an expired one, starts a window with count 1 and
  a time-to-live of \<open>windowSeconds\<close>; a live counter is incremented and keeps its
  expiry.\<close>

definition increment :: "RateLimitPolicy \<Rightarrow> int \<Rightarrow> RateLimitState option \<Rightarrow> RateLimitState" where
  "increment pol now c =
     (case c of
        None \<Rightarrow> \<lparr>count = 1, expires_at = now + window_millis pol\<rparr>
      | Some st \<Rightarrow>
          if now \<le> expires_at st then st\<lparr>count := count st + 1\<rparr>
          else \<lparr>count = 1, expires_at = now + window_millis pol\<rparr>)"

text \<open>Modelled from the spec: steps 3 to 5 of \<^verbatim>\<open>evaluate\<close>. The count and the remaining
  time-to-live are read back; a count of at most \<open>maxRequests\<close> admits, a larger one
  rejects with the remaining time-to-live.\<close>

definition evaluate :: "RateLimitPolicy \<Rightarrow> RateLimitKey \<Rightarrow> int \<Rightarrow> store \<Rightarrow> Decision \<times> store" where
  "evaluate pol k now s =
     (let st = increment pol now (s k);
          remaining_ttl = expires_at st - now
      in (if count st \<le> maxRequests pol then Admit else Reject remaining_ttl, s(k \<mapsto> st)))"

text \<open>Modelled from the spec: requests evaluated one after the other, each with its
  policy, key and arrival time in milliseconds.\<close>

fun evaluate_all :: "(RateLimitPolicy \<times> RateLimitKey \<times> int) list \<Rightarrow> store \<Rightarrow> Decision list \<times> store" where
  "evaluate_all [] s = ([], s)"
| "evaluate_all ((pol, k, now) # qs) s =
     (let (d, s') = evaluate pol k now s; (ds, s'') = evaluate_all qs s' in (d # ds, s''))"

section \<open>Properties of the storage handlers\<close>

subsection \<open>Lookups, fresh rowids and the invariant\<close>

lemma fetchone_by_id_None:
  "fetchone_by_id i d = None \<longleftrightarrow> (\<forall>r\<in>set (posts d). row_id r \<noteq> i)"
  by (auto simp: fetchone_by_id_def find_None_iff)

lemma find_distinct_key:
  "distinct (map f rs) \<Longrightarrow> r \<in> set rs \<Longrightarrow> find (\<lambda>x. f x = f r) rs = Some r"
  by (induction rs) auto

lemma fetchone_by_id_unique:
  "distinct (map row_id (posts d)) \<Longrightarrow> r \<in> set (posts d) \<Longrightarrow> fetchone_by_id (row_id r) d = Some r"
  by (simp add: fetchone_by_id_def find_distinct_key)

lemma filter_absent:
  "\<forall>r\<in>set rs. f r \<noteq> i \<Longrightarrow> filter (\<lambda>r. f r = i) rs = [] \<and> filter (\<lambda>r. f r \<noteq> i) rs = rs"
  by (induction rs) auto

lemma map_absent: "\<forall>r\<in>set rs. f r \<noteq> i \<Longrightarrow> map (\<lambda>r. if f r = i then g r else r) rs = rs"
  by (induction rs) auto















lemma fits_int64_small: "fits_int64 1" "fits_int64 2" "fits_int64 7"
  by (simp_all add: fits_int64_def)

lemma not_fits_int64_big: "\<not> fits_int64 9223372036854775808"
  by (simp add: fits_int64_def)

subsection \<open>Reading one post\<close>

text \<open>
  C7, as the handler has it. For every id that fits a signed 64-bit integer,
  \<^verbatim>\<open>GET /posts/{id}\<close> answers with the stored row of that id when there is one, and
  raises \<^verbatim>\<open>HTTPException\<close> with status 404 and the detail
  \<^verbatim>\<open>post with id: {id} was not found\<close> when no row has that id. The database is left
  as it was in both cases.
\<close>

theorem get_post_found_or_404_in_range:
  assumes "wf_db d" and "fits_int64 i"
  shows "(\<forall>r\<in>set (posts d). row_id r = i \<longrightarrow> get_post i d = (Inr (200, Post_detail r), d)) \<and>
         ((\<forall>r\<in>set (posts d). row_id r \<noteq> i) \<longrightarrow>
            get_post i d = (Inl (HTTPException 404 (''post with id: '' @ str_int i @ '' was not found'') None), d))"
proof (intro conjI ballI impI)
  fix r assume "r \<in> set (posts d)" "row_id r = i"
  with assms have "select_by_id i d = Inr (Some r)"
    using fetchone_by_id_unique [of d r] by (simp add: wf_db_def select_by_id_def)
  then show "get_post i d = (Inr (200, Post_detail r), d)"
    by (simp add: get_post_def HTTP_200_OK_def)
next
  assume "\<forall>r\<in>set (posts d). row_id r \<noteq> i"
  then have "select_by_id i d = Inr None"
    using assms(2) by (simp add: select_by_id_def fetchone_by_id_None)
  then show "get_post i d = (Inl (HTTPException 404 (''post with id: '' @ str_int i @ '' was not found'') None), d)"
    by (simp add: get_post_def HTTP_404_NOT_FOUND_def)
qed

theorem get_post_found_or_404_in_range_witness:
  "wf_db \<lparr>posts = [\<lparr>row_id = 1, row_title = ''a'', row_content = ''b'',
                      row_published = 1, row_rating = None\<rparr>], sqlite_sequence = 1\<rparr> \<and>
   get_post 1 \<lparr>posts = [\<lparr>row_id = 1, row_title = ''a'', row_content = ''b'',
                      row_published = 1, row_rating = None\<rparr>], sqlite_sequence = 1\<rparr> =
     (Inr (200, Post_detail \<lparr>row_id = 1, row_title = ''a'', row_content = ''b'',
                      row_published = 1, row_rating = None\<rparr>),
      \<lparr>posts = [\<lparr>row_id = 1, row_title = ''a'', row_content = ''b'',
                      row_published = 1, row_rating = None\<rparr>], sqlite_sequence = 1\<rparr>) \<and>
   get_post 2 \<lparr>posts = [\<lparr>row_id = 1, row_title = ''a'', row_content = ''b'',
                      row_published = 1, row_rating = None\<rparr>], sqlite_sequence = 1\<rparr> =
     (Inl (HTTPException 404 ''post with id: 2 was not found'' None),
      \<lparr>posts = [\<lparr>row_id = 1, row_title = ''a'', row_content = ''b'',
                      row_published = 1, row_rating = None\<rparr>], sqlite_sequence = 1\<rparr>)"
proof -
  let ?r = "\<lparr>row_id = 1, row_title = ''a'', row_content = ''b'',
             row_published = 1, row_rating = None\<rparr>"
  let ?d = "\<lparr>posts = [?r], sqlite_sequence = 1\<rparr>"
  have wf: "wf_db ?d" by (simp add: wf_db_def)
  have s: "str_int 2 = ''2''" by (simp add: str_int_def str_nat.simps digit_char_def)
  from get_post_found_or_404_in_range [OF wf fits_int64_small(1)]
  have "get_post 1 ?d = (Inr (200, Post_detail ?r), ?d)"
    by simp
  moreover from get_post_found_or_404_in_range [OF wf fits_int64_small(2)]
  have "get_post 2 ?d = (Inl (HTTPException 404 ''post with id: 2 was not found'' None), ?d)"
    by (simp add: s)
  ultimately show ?thesis using wf by simp
qed

text \<open>
  An id outside that range never reaches the table. The path parameter \<^verbatim>\<open>id: int\<close>
  accepts \<open>2 ^ 63\<close>; binding it raises \<^verbatim>\<open>OverflowError\<close>, so on the empty table, where
  no row has that id, the request ends in that error and not in the 404.
\<close>

theorem get_post_out_of_range:
  "select_all init_db = [] \<and>
   get_post 9223372036854775808 init_db = (Inl OverflowError, init_db) \<and>
   fst (get_post 9223372036854775808 init_db) \<noteq>
     Inl (HTTPException 404
            (''post with id: '' @ str_int 9223372036854775808 @ '' was not found'') None)"
proof -
  have 1: "select_all init_db = []" by (simp add: select_all_def init_db_def)
  have 2: "get_post 9223372036854775808 init_db = (Inl OverflowError, init_db)"
    by (simp add: get_post_def select_by_id_def not_fits_int64_big)
  from 1 2 show ?thesis by simp
qed

subsection \<open>Updating and deleting a post\<close>

lemma set_columns_row:
  "set_columns p r = \<lparr>row_id = row_id r, row_title = title p, row_content = content p,
     row_published = adapt_bool (published p), row_rating = rating p\<rparr>"
  by (cases r) (simp add: set_columns_def)

lemma find_update:
  "find (\<lambda>r. row_id r = i) (map (\<lambda>r. if row_id r = i then set_columns p r else r) rs) =
   map_option (set_columns p) (find (\<lambda>r. row_id r = i) rs)"
  by (induction rs) (auto simp: set_columns_row)

lemma filter_present:
  "r \<in> set rs \<Longrightarrow> row_id r = i \<Longrightarrow> filter (\<lambda>r. row_id r = i) rs \<noteq> []"
  by (auto simp: filter_empty_conv)

lemma filter_distinct_key:
  "distinct (map f rs) \<Longrightarrow> r \<in> set rs \<Longrightarrow> filter (\<lambda>x. f x = f r) rs = [r]"
proof (induction rs)
  case Nil
  then show ?case by simp
next
  case (Cons a rs)
  show ?case
  proof (cases "a = r")
    case True
    have "f r \<notin> f ` set rs" using Cons.prems(1) True by simp
    then have "\<forall>x\<in>set rs. f x \<noteq> f r" by (metis imageI)
    then have "filter (\<lambda>x. f x = f r) rs = []" by (simp add: filter_empty_conv)
    with True show ?thesis by simp
  next
    case False
    with Cons.prems have r: "r \<in> set rs" and "f a \<noteq> f r" by auto
    with Cons show ?thesis by simp
  qed
qed

lemma update_post_overflow:
  "\<not> (binds (rating p) \<and> fits_int64 i) \<Longrightarrow> update_post i p d = (Inl OverflowError, d)"
  by (auto simp: update_post_def update_by_id_def)

lemma delete_post_overflow:
  "\<not> fits_int64 i \<Longrightarrow> delete_post i d = (Inl OverflowError, d)"
  by (simp add: delete_post_def delete_by_id_def)

lemma update_post_absent:
  assumes "\<forall>r\<in>set (posts d). row_id r \<noteq> i" and "fits_int64 i" and "binds (rating p)"
  shows "update_post i p d =
    (Inl (HTTPException 404 (''post with id: '' @ str_int i @ '' does not exist'') None), d)"
  using filter_absent [OF assms(1)] map_absent [OF assms(1), of "set_columns p"] assms(2,3)
  by (simp add: update_post_def update_by_id_def HTTP_404_NOT_FOUND_def)

lemma delete_post_absent:
  assumes "\<forall>r\<in>set (posts d). row_id r \<noteq> i" and "fits_int64 i"
  shows "delete_post i d =
    (Inl (HTTPException 404 (''post with id: '' @ str_int i @ '' does not exist'') None), d)"
  using filter_absent [OF assms(1)] assms(2)
  by (simp add: delete_post_def delete_by_id_def HTTP_404_NOT_FOUND_def)

lemma update_post_present:
  assumes "r \<in> set (posts d)" and "row_id r = i" and "fits_int64 i" and "binds (rating p)"
  shows "update_post i p d =
    (Inr (200, Data \<lparr>row_id = i, row_title = title p, row_content = content p,
       row_published = adapt_bool (published p), row_rating = rating p\<rparr>),
     d\<lparr>posts := map (\<lambda>r. if row_id r = i then set_columns p r else r) (posts d)\<rparr>)"
proof -
  obtain r' where f: "find (\<lambda>r. row_id r = i) (posts d) = Some r'"
    using assms(1,2) by (cases "find (\<lambda>r. row_id r = i) (posts d)") (auto simp: find_None_iff)
  then have "row_id r' = i" by (auto simp: find_Some_iff)
  then have "set_columns p r' = \<lparr>row_id = i, row_title = title p, row_content = content p,
       row_published = adapt_bool (published p), row_rating = rating p\<rparr>"
    by (simp add: set_columns_row)
  with f show ?thesis
    using filter_present [OF assms(1,2)] assms(3,4)
    by (simp add: update_post_def update_by_id_def select_by_id_def fetchone_by_id_def
        find_update HTTP_200_OK_def)
qed

lemma delete_post_present:
  assumes "r \<in> set (posts d)" and "row_id r = i" and "fits_int64 i"
  shows "delete_post i d =
    (Inr (204, No_body), d\<lparr>posts := filter (\<lambda>r. row_id r \<noteq> i) (posts d)\<rparr>)"
  using filter_present [OF assms(1,2)] assms(3)
  by (simp add: delete_post_def delete_by_id_def HTTP_204_NO_CONTENT_def)




lemma update_post_success:
  assumes "update_post i p d = (Inr a, d')"
  shows "(\<exists>r\<in>set (posts d). row_id r = i) \<and> fits_int64 i \<and> binds (rating p)"
proof -
  have ok: "binds (rating p) \<and> fits_int64 i"
  proof (rule ccontr)
    assume "\<not> (binds (rating p) \<and> fits_int64 i)"
    from update_post_overflow [OF this, of d] assms show False by simp
  qed
  have "\<exists>r\<in>set (posts d). row_id r = i"
  proof (rule ccontr)
    assume "\<not> (\<exists>r\<in>set (posts d). row_id r = i)"
    then have "\<forall>r\<in>set (posts d). row_id r \<noteq> i" by blast
    from update_post_absent [OF this] ok assms show False by simp
  qed
  with ok show ?thesis by simp
qed

lemma delete_post_success:
  assumes "delete_post i d = (Inr a, d')"
  shows "(\<exists>r\<in>set (posts d). row_id r = i) \<and> fits_int64 i"
proof -
  have ok: "fits_int64 i"
  proof (rule ccontr)
    assume "\<not> fits_int64 i"
    from delete_post_overflow [OF this, of d] assms show False by simp
  qed
  have "\<exists>r\<in>set (posts d). row_id r = i"
  proof (rule ccontr)
    assume "\<not> (\<exists>r\<in>set (posts d). row_id r = i)"
    then have "\<forall>r\<in>set (posts d). row_id r \<noteq> i" by blast
    from delete_post_absent [OF this ok] assms show False by simp
  qed
  with ok show ?thesis by simp
qed

lemma filter_other_update:
  "filter (\<lambda>r. row_id r \<noteq> i) (map (\<lambda>r. if row_id r = i then set_columns p r else r) rs) =
   filter (\<lambda>r. row_id r \<noteq> i) rs"
  by (induction rs) (auto simp: set_columns_row)

lemma filter_same_update:
  "filter (\<lambda>r. row_id r = i) (map (\<lambda>r. if row_id r = i then set_columns p r else r) rs) =
   map (set_columns p) (filter (\<lambda>r. row_id r = i) rs)"
  by (induction rs) (auto simp: set_columns_row)

text \<open>
  C10. Frame property. In a database whose ids are distinct, a successful update changes only
  the row carrying the requested id: the rows with any other id are the same rows in the same
  order, exactly one row matched, that row now holds the new column values, and neither the
  number of rows nor the AUTOINCREMENT counter moved. A successful delete removes exactly that
  one row: the rows with any other id are unchanged, no row with the id remains, and the table
  is one row shorter.
\<close>

theorem update_delete_frame:
  assumes "wf_db d"
  shows "(\<forall>a d'. update_post i p d = (Inr a, d') \<longrightarrow>
            filter (\<lambda>r. row_id r \<noteq> i) (posts d') = filter (\<lambda>r. row_id r \<noteq> i) (posts d) \<and>
            length (filter (\<lambda>r. row_id r = i) (posts d)) = 1 \<and>
            filter (\<lambda>r. row_id r = i) (posts d') =
              [\<lparr>row_id = i, row_title = title p, row_content = content p,
                row_published = adapt_bool (published p), row_rating = rating p\<rparr>] \<and>
            length (posts d') = length (posts d) \<and>
            sqlite_sequence d' = sqlite_sequence d) \<and>
         (\<forall>a d'. delete_post i d = (Inr a, d') \<longrightarrow>
            filter (\<lambda>r. row_id r \<noteq> i) (posts d') = filter (\<lambda>r. row_id r \<noteq> i) (posts d) \<and>
            length (filter (\<lambda>r. row_id r = i) (posts d)) = 1 \<and>
            filter (\<lambda>r. row_id r = i) (posts d') = [] \<and>
            length (posts d') + 1 = length (posts d) \<and>
            sqlite_sequence d' = sqlite_sequence d)"
proof (intro conjI allI impI)
  fix a d' assume u: "update_post i p d = (Inr a, d')"
  from update_post_success [OF u] obtain r where r: "r \<in> set (posts d)" "row_id r = i"
    and ok: "fits_int64 i" "binds (rating p)" by blast
  from update_post_present [OF r ok] u
  have d': "d' = d\<lparr>posts := map (\<lambda>r. if row_id r = i then set_columns p r else r) (posts d)\<rparr>"
    by simp
  have one: "filter (\<lambda>x. row_id x = i) (posts d) = [r]"
    using filter_distinct_key [of row_id "posts d" r] assms r by (simp add: wf_db_def)
  show "filter (\<lambda>r. row_id r \<noteq> i) (posts d') = filter (\<lambda>r. row_id r \<noteq> i) (posts d)"
    by (simp add: d' filter_other_update)
  show "length (filter (\<lambda>r. row_id r = i) (posts d)) = 1" by (simp add: one)
  show "filter (\<lambda>r. row_id r = i) (posts d') =
              [\<lparr>row_id = i, row_title = title p, row_content = content p,
                row_published = adapt_bool (published p), row_rating = rating p\<rparr>]"
    by (simp add: d' filter_same_update one set_columns_row r)
  show "length (posts d') = length (posts d)" by (simp add: d')
  show "sqlite_sequence d' = sqlite_sequence d" by (simp add: d')
next
  fix a d' assume u: "delete_post i d = (Inr a, d')"
  from delete_post_success [OF u] obtain r where r: "r \<in> set (posts d)" "row_id r = i"
    and ok: "fits_int64 i" by blast
  from delete_post_present [OF r ok] u
  have d': "d' = d\<lparr>posts := filter (\<lambda>r. row_id r \<noteq> i) (posts d)\<rparr>"
    by simp
  have one: "filter (\<lambda>x. row_id x = i) (posts d) = [r]"
    using filter_distinct_key [of row_id "posts d" r] assms r by (simp add: wf_db_def)
  show "filter (\<lambda>r. row_id r \<noteq> i) (posts d') = filter (\<lambda>r. row_id r \<noteq> i) (posts d)"
    by (simp add: d')
  show "length (filter (\<lambda>r. row_id r = i) (posts d)) = 1" by (simp add: one)
  show "filter (\<lambda>r. row_id r = i) (posts d') = []" by (simp add: d' filter_empty_conv)
  have "length (filter (\<lambda>r. row_id r = i) (posts d)) + length (filter (\<lambda>r. \<not> row_id r = i) (posts d))
        = length (posts d)"
    by (rule sum_length_filter_compl)
  then show "length (posts d') + 1 = length (posts d)" by (simp add: d' one)
  show "sqlite_sequence d' = sqlite_sequence d" by (simp add: d')
qed

theorem update_delete_frame_witness:
  "wf_db \<lparr>posts = [\<lparr>row_id = 1, row_title = ''a'', row_content = ''b'',
                      row_published = 1, row_rating = None\<rparr>,
                    \<lparr>row_id = 2, row_title = ''x'', row_content = ''y'',
                      row_published = 0, row_rating = Some 5\<rparr>], sqlite_sequence = 2\<rparr> \<and>
   filter (\<lambda>r. row_id r \<noteq> 1)
     (posts (snd (update_post 1
        \<lparr>title = ''t'', content = ''c'', published = False, rating = Some 3\<rparr>
        \<lparr>posts = [\<lparr>row_id = 1, row_title = ''a'', row_content = ''b'',
                      row_published = 1, row_rating = None\<rparr>,
                    \<lparr>row_id = 2, row_title = ''x'', row_content = ''y'',
                      row_published = 0, row_rating = Some 5\<rparr>], sqlite_sequence = 2\<rparr>))) =
     [\<lparr>row_id = 2, row_title = ''x'', row_content = ''y'', row_published = 0, row_rating = Some 5\<rparr>] \<and>
   filter (\<lambda>r. row_id r = 1)
     (posts (snd (update_post 1
        \<lparr>title = ''t'', content = ''c'', published = False, rating = Some 3\<rparr>
        \<lparr>posts = [\<lparr>row_id = 1, row_title = ''a'', row_content = ''b'',
                      row_published = 1, row_rating = None\<rparr>,
                    \<lparr>row_id = 2, row_title = ''x'', row_content = ''y'',
                      row_published = 0, row_rating = Some 5\<rparr>], sqlite_sequence = 2\<rparr>))) =
     [\<lparr>row_id = 1, row_title = ''t'', row_content = ''c'', row_published = 0, row_rating = Some 3\<rparr>] \<and>
   filter (\<lambda>r. row_id r \<noteq> 1)
     (posts (snd (delete_post 1
        \<lparr>posts = [\<lparr>row_id = 1, row_title = ''a'', row_content = ''b'',
                      row_published = 1, row_rating = None\<rparr>,
                    \<lparr>row_id = 2, row_title = ''x'', row_content = ''y'',
                      row_published = 0, row_rating = Some 5\<rparr>], sqlite_sequence = 2\<rparr>))) =
     [\<lparr>row_id = 2, row_title = ''x'', row_content = ''y'', row_published = 0, row_rating = Some 5\<rparr>] \<and>
   filter (\<lambda>r. row_id r = 1)
     (posts (snd (delete_post 1
        \<lparr>posts = [\<lparr>row_id = 1, row_title = ''a'', row_content = ''b'',
                      row_published = 1, row_rating = None\<rparr>,
                    \<lparr>row_id = 2, row_title = ''x'', row_content = ''y'',
                      row_published = 0, row_rating = Some 5\<rparr>], sqlite_sequence = 2\<rparr>))) = []"
proof -
  let ?p = "\<lparr>title = ''t'', content = ''c'', published = False, rating = Some 3\<rparr>"
  let ?r1 = "\<lparr>row_id = 1, row_title = ''a'', row_content = ''b'',
                      row_published = 1, row_rating = None\<rparr>"
  let ?r2 = "\<lparr>row_id = 2, row_title = ''x'', row_content = ''y'',
                      row_published = 0, row_rating = Some 5\<rparr>"
  let ?d = "\<lparr>posts = [?r1, ?r2], sqlite_sequence = 2\<rparr>"
  have wf: "wf_db ?d" by (simp add: wf_db_def)
  have b: "binds (rating ?p)" by (simp add: binds_def fits_int64_def)
  have "r \<in> set (posts ?d) \<Longrightarrow> row_id r = 1 \<Longrightarrow> \<exists>a d'. update_post 1 ?p ?d = (Inr a, d')" for r
    by (rule exI, rule exI, rule update_post_present [OF _ _ fits_int64_small(1) b])
  then obtain a d' where u: "update_post 1 ?p ?d = (Inr a, d')"
    by fastforce
  have "r \<in> set (posts ?d) \<Longrightarrow> row_id r = 1 \<Longrightarrow> \<exists>b e. delete_post 1 ?d = (Inr b, e)" for r
    by (rule exI, rule exI, rule delete_post_present [OF _ _ fits_int64_small(1)])
  then obtain b e where dl: "delete_post 1 ?d = (Inr b, e)"
    by fastforce
  note f = update_delete_frame [OF wf, of 1 ?p]
  from f u have u1: "filter (\<lambda>r. row_id r \<noteq> 1) (posts d') = [?r2]"
    and u2: "filter (\<lambda>r. row_id r = 1) (posts d') =
               [\<lparr>row_id = 1, row_title = ''t'', row_content = ''c'',
                 row_published = 0, row_rating = Some 3\<rparr>]"
    by (simp_all add: adapt_bool_def)
  from f dl have d1: "filter (\<lambda>r. row_id r \<noteq> 1) (posts e) = [?r2]"
    and d2: "filter (\<lambda>r. row_id r = 1) (posts e) = []"
    by simp_all
  have su: "snd (update_post 1 ?p ?d) = d'" by (simp only: u snd_conv)
  have sd: "snd (delete_post 1 ?d) = e" by (simp only: dl snd_conv)
  show ?thesis
    by (simp only: su sd u1 u2 d1 d2 wf simp_thms)
qed

subsection \<open>Creating a post\<close>




section \<open>Properties of the rate-limited application\<close>

subsection \<open>The rejection callback\<close>

lemma ceiling_thousand:
  "\<lceil>real_of_int p / 1000\<rceil> = - ((- p) div 1000)"
proof -
  have "\<lceil>real_of_int p / real_of_int 1000\<rceil> = - (- p div 1000)"
    by (rule ceiling_divide_eq_div)
  then show ?thesis by simp
qed


lemma ceiling_bounds:
  "p \<le> 1000 * (- ((- p) div 1000))" "1000 * (- ((- p) div 1000)) < p + (1000::int)"
  by linarith+

text \<open>
  C2. For a remaining window time of \<open>p\<close> milliseconds the rejection callback raises the
  \<^verbatim>\<open>HTTPException\<close> with status 429 whose \<^verbatim>\<open>Retry-After\<close> header is the decimal text of
  \<open>\<lceil>p / 1000\<rceil>\<close> and whose message holds that same text between
  ``Too Many Requests. Retry after '' and `` seconds.''. The value is the remaining time
  rounded up to whole seconds: the least number of seconds that covers \<open>p\<close> milliseconds.
  The bound on \<open>p\<close> is the range in which the model's quotient is Python's; every
  time-to-live of a window of the application, at most 60000 milliseconds, lies in it.
\<close>

theorem custom_callback_429:
  assumes "\<bar>p\<bar> < 2 ^ 53"
  shows "custom_callback p =
           HTTPException 429
             (''Too Many Requests. Retry after '' @ str_int \<lceil>real_of_int p / 1000\<rceil> @ '' seconds.'')
             (Some [(''Retry-After'', str_int \<lceil>real_of_int p / 1000\<rceil>)]) \<and>
         \<lceil>real_of_int p / 1000\<rceil> = - ((- p) div 1000) \<and>
         p \<le> 1000 * \<lceil>real_of_int p / 1000\<rceil> \<and>
         1000 * \<lceil>real_of_int p / 1000\<rceil> < p + 1000"
proof -
  have 1: "custom_callback p =
           HTTPException 429
             (''Too Many Requests. Retry after '' @ str_int \<lceil>real_of_int p / 1000\<rceil> @ '' seconds.'')
             (Some [(''Retry-After'', str_int \<lceil>real_of_int p / 1000\<rceil>)])"
    by (simp only: custom_callback_def Let_def HTTP_429_TOO_MANY_REQUESTS_def)
  note c = ceiling_thousand [of p]
  from 1 c ceiling_bounds [of p] show ?thesis
    by (simp only: simp_thms)
qed

theorem custom_callback_429_witness:
  "custom_callback 4800 =
     HTTPException 429 ''Too Many Requests. Retry after 5 seconds.''
       (Some [(''Retry-After'', ''5'')])"
proof -
  have b: "\<bar>4800 :: int\<bar> < 2 ^ 53" by simp
  have c: "- ((- 4800) div 1000) = (5 :: int)" by simp
  have s: "str_int 5 = ''5''" by (simp add: str_int_def str_nat.simps digit_char_def)
  from custom_callback_429 [OF b]
  have "custom_callback 4800 =
           HTTPException 429
             (''Too Many Requests. Retry after '' @ str_int (- ((- 4800) div 1000)) @ '' seconds.'')
             (Some [(''Retry-After'', str_int (- ((- 4800) div 1000)))])"
    by (simp only:)
  then show ?thesis by (simp only: c s append.simps)
qed

subsection \<open>The policies of the routes\<close>

text \<open>
  C6. The application registers six routes, no two with the same method and path template,
  each with exactly one rate-limit dependency, and the policies are:
  \<^verbatim>\<open>GET /\<close> 2 requests per 5 seconds, \<^verbatim>\<open>GET /posts\<close> 30 per 60, \<^verbatim>\<open>POST /posts\<close> 5 per 60,
  \<^verbatim>\<open>GET /posts/{id}\<close> 20 per 60, \<^verbatim>\<open>PUT /posts/{id}\<close> 10 per 60 and
  \<^verbatim>\<open>DELETE /posts/{id}\<close> 3 per 60. The table is a constant of the program: nothing
  changes it after startup.
\<close>

theorem routes_have_one_policy:
  "length routes = 6 \<and>
   distinct (map (\<lambda>r. (route_method r, route_path r)) routes) \<and>
   map (\<lambda>r. length (dependencies r)) routes = [1, 1, 1, 1, 1, 1] \<and>
   policies GET ''/'' = [\<lparr>maxRequests = 2, windowSeconds = 5\<rparr>] \<and>
   policies GET ''/posts'' = [\<lparr>maxRequests = 30, windowSeconds = 60\<rparr>] \<and>
   policies POST ''/posts'' = [\<lparr>maxRequests = 5, windowSeconds = 60\<rparr>] \<and>
   policies GET ''/posts/{id}'' = [\<lparr>maxRequests = 20, windowSeconds = 60\<rparr>] \<and>
   policies PUT ''/posts/{id}'' = [\<lparr>maxRequests = 10, windowSeconds = 60\<rparr>] \<and>
   policies DELETE ''/posts/{id}'' = [\<lparr>maxRequests = 3, windowSeconds = 60\<rparr>]"
proof -
  have 1: "length routes = 6" by (simp add: routes_def)
  have 2: "distinct (map (\<lambda>r. (route_method r, route_path r)) routes)"
    by (simp add: routes_def)
  have 3: "map (\<lambda>r. length (dependencies r)) routes = [1, 1, 1, 1, 1, 1]"
    by (simp add: routes_def)
  have 4: "policies GET ''/'' = [\<lparr>maxRequests = 2, windowSeconds = 5\<rparr>]"
    by (simp add: routes_def policies_def RateLimiter_def)
  have 5: "policies GET ''/posts'' = [\<lparr>maxRequests = 30, windowSeconds = 60\<rparr>]"
    by (simp add: routes_def policies_def RateLimiter_def)
  have 6: "policies POST ''/posts'' = [\<lparr>maxRequests = 5, windowSeconds = 60\<rparr>]"
    by (simp add: routes_def policies_def RateLimiter_def)
  have 7: "policies GET ''/posts/{id}'' = [\<lparr>maxRequests = 20, windowSeconds = 60\<rparr>]"
    by (simp add: routes_def policies_def RateLimiter_def)
  have 8: "policies PUT ''/posts/{id}'' = [\<lparr>maxRequests = 10, windowSeconds = 60\<rparr>]"
    by (simp add: routes_def policies_def RateLimiter_def)
  have 9: "policies DELETE ''/posts/{id}'' = [\<lparr>maxRequests = 3, windowSeconds = 60\<rparr>]"
    by (simp add: routes_def policies_def RateLimiter_def)
  from 1 2 3 4 5 6 7 8 9 show ?thesis by (simp only: simp_thms)
qed

subsection \<open>The limiter's evaluation\<close>

lemma evaluate_all_Cons:
  "evaluate_all ((pol, k, now) # qs) s =
     (fst (evaluate pol k now s) # fst (evaluate_all qs (snd (evaluate pol k now s))),
      snd (evaluate_all qs (snd (evaluate pol k now s))))"
  by (simp split: prod.splits)

lemma evaluate_other_key:
  "k \<noteq> k' \<Longrightarrow> snd (evaluate pol k now s) k' = s k'"
  by (simp add: evaluate_def Let_def)

lemma evaluate_all_other_key:
  "\<forall>q\<in>set qs. fst (snd q) \<noteq> k' \<Longrightarrow> snd (evaluate_all qs s) k' = s k'"
proof (induction qs arbitrary: s)
  case Nil
  then show ?case by simp
next
  case (Cons q qs)
  obtain pol k now where q: "q = (pol, k, now)" by (cases q)
  from Cons.prems q have k: "k \<noteq> k'" and rest: "\<forall>q\<in>set qs. fst (snd q) \<noteq> k'" by simp_all
  have "snd (evaluate_all (q # qs) s) = snd (evaluate_all qs (snd (evaluate pol k now s)))"
    by (simp add: q evaluate_all_Cons del: evaluate_all.simps)
  then show ?case
    using Cons.IH [OF rest, of "snd (evaluate pol k now s)"] evaluate_other_key [OF k]
    by simp
qed

lemma evaluate_same_counter:
  "s k = s' k \<Longrightarrow>
     fst (evaluate pol k now s) = fst (evaluate pol k now s') \<and>
     snd (evaluate pol k now s) k = snd (evaluate pol k now s') k"
  by (simp add: evaluate_def Let_def)

lemma evaluate_live:
  assumes "s k = Some \<lparr>count = c, expires_at = e\<rparr>" and "now \<le> e"
  shows "evaluate pol k now s =
           (if c < maxRequests pol then Admit else Reject (e - now),
            s(k \<mapsto> \<lparr>count = Suc c, expires_at = e\<rparr>))"
  using assms by (simp add: evaluate_def increment_def Let_def)

lemma evaluate_fresh:
  assumes "case s k of None \<Rightarrow> True | Some st \<Rightarrow> expires_at st < now"
  shows "evaluate pol k now s =
           (if 0 < maxRequests pol then Admit else Reject (window_millis pol),
            s(k \<mapsto> \<lparr>count = 1, expires_at = now + window_millis pol\<rparr>))"
  using assms by (auto simp: evaluate_def increment_def Let_def split: option.splits)

lemma evaluate_all_live:
  assumes "s k = Some \<lparr>count = c, expires_at = e\<rparr>" and "\<forall>t\<in>set ts. t \<le> e"
  shows "evaluate_all (map (\<lambda>t. (pol, k, t)) ts) s =
           (map (\<lambda>(i, t). if i < maxRequests pol then Admit else Reject (e - t)) (enumerate c ts),
            s(k \<mapsto> \<lparr>count = c + length ts, expires_at = e\<rparr>))"
  using assms
proof (induction ts arbitrary: c s)
  case Nil
  then have "s(k \<mapsto> \<lparr>count = c, expires_at = e\<rparr>) = s" by (simp add: fun_upd_idem)
  then show ?case by simp
next
  case (Cons t ts)
  let ?s = "s(k \<mapsto> \<lparr>count = Suc c, expires_at = e\<rparr>)"
  from Cons.prems have t: "t \<le> e" and rest: "\<forall>t\<in>set ts. t \<le> e" by simp_all
  have step: "evaluate pol k t s = (if c < maxRequests pol then Admit else Reject (e - t), ?s)"
    by (rule evaluate_live [where s = s and k = k, OF Cons.prems(1) t])
  have "?s k = Some \<lparr>count = Suc c, expires_at = e\<rparr>" by simp
  from Cons.IH [where s = "?s", OF this rest]
  have "evaluate_all (map (\<lambda>t. (pol, k, t)) ts) ?s =
          (map (\<lambda>(i, t). if i < maxRequests pol then Admit else Reject (e - t)) (enumerate (Suc c) ts),
           ?s(k \<mapsto> \<lparr>count = Suc c + length ts, expires_at = e\<rparr>))" .
  with step show ?case
    by (simp add: evaluate_all_Cons del: evaluate_all.simps) (rule ext, simp)
qed

text \<open>
  C1. Take a key with no live counter when its first request arrives at \<open>t1\<close>, and let the
  following requests for the key arrive no later than the end of the window that the first
  one opens. Then the limiter admits a request exactly when fewer than \<open>maxRequests\<close>
  requests came before it: requests 1 to \<open>maxRequests\<close> are admitted and request
  \<open>maxRequests + 1\<close>, like every later one in the window, is rejected with the time left
  of the window. Equivalently, for every state of the store, the decision is \<open>Admit\<close>
  exactly when the count after the increment is at most \<open>maxRequests\<close>.
\<close>

theorem evaluate_admits_up_to_max:
  assumes "case s k of None \<Rightarrow> True | Some st \<Rightarrow> expires_at st < t1"
    and "\<forall>t\<in>set ts. t \<le> t1 + window_millis pol"
  shows "evaluate_all (map (\<lambda>t. (pol, k, t)) (t1 # ts)) s =
           (map (\<lambda>(i, t). if i < maxRequests pol then Admit
                           else Reject (t1 + window_millis pol - t)) (enumerate 0 (t1 # ts)),
            s(k \<mapsto> \<lparr>count = length (t1 # ts), expires_at = t1 + window_millis pol\<rparr>)) \<and>
         (\<forall>i<length (t1 # ts).
            (fst (evaluate_all (map (\<lambda>t. (pol, k, t)) (t1 # ts)) s) ! i = Admit) =
            (i < maxRequests pol)) \<and>
         (\<forall>now s'. (fst (evaluate pol k now s') = Admit) =
            (count (the (snd (evaluate pol k now s') k)) \<le> maxRequests pol))"
proof -
  let ?w = "window_millis pol"
  let ?s = "s(k \<mapsto> \<lparr>count = 1, expires_at = t1 + ?w\<rparr>)"
  let ?dec = "\<lambda>(i, t). if i < maxRequests pol then Admit else Reject (t1 + ?w - t)"
  have first: "evaluate pol k t1 s =
      (if 0 < maxRequests pol then Admit else Reject ?w, ?s)"
    by (rule evaluate_fresh [where s = s and k = k, OF assms(1)])
  have "?s k = Some \<lparr>count = 1, expires_at = t1 + ?w\<rparr>" by simp
  from evaluate_all_live [where s = "?s" and k = k, OF this assms(2), of pol]
  have rest: "evaluate_all (map (\<lambda>t. (pol, k, t)) ts) ?s =
      (map ?dec (enumerate 1 ts), ?s(k \<mapsto> \<lparr>count = 1 + length ts, expires_at = t1 + ?w\<rparr>))" .
  have all: "evaluate_all (map (\<lambda>t. (pol, k, t)) (t1 # ts)) s =
      (map ?dec (enumerate 0 (t1 # ts)),
       s(k \<mapsto> \<lparr>count = length (t1 # ts), expires_at = t1 + ?w\<rparr>))"
    using first rest by (simp add: evaluate_all_Cons del: evaluate_all.simps)
  have nth: "\<forall>i<length (t1 # ts).
      (fst (evaluate_all (map (\<lambda>t. (pol, k, t)) (t1 # ts)) s) ! i = Admit) = (i < maxRequests pol)"
  proof (intro allI impI)
    fix i assume i: "i < length (t1 # ts)"
    have "map ?dec (enumerate 0 (t1 # ts)) ! i = ?dec (i, (t1 # ts) ! i)"
      using i by (simp add: nth_enumerate_eq del: enumerate_simps)
    then show "(fst (evaluate_all (map (\<lambda>t. (pol, k, t)) (t1 # ts)) s) ! i = Admit) =
               (i < maxRequests pol)"
      by (simp only: all fst_conv) simp
  qed
  have one: "\<forall>now s'. (fst (evaluate pol k now s') = Admit) =
            (count (the (snd (evaluate pol k now s') k)) \<le> maxRequests pol)"
    by (simp add: evaluate_def Let_def)
  from all nth one show ?thesis by (simp only: simp_thms)
qed

theorem evaluate_admits_up_to_max_witness:
  "fst (evaluate_all
          (map (\<lambda>t. (\<lparr>maxRequests = 2, windowSeconds = 5\<rparr>,
                      \<lparr>client = ''10.0.0.1'', key_method = GET, key_path = ''/''\<rparr>, t))
               [0, 100, 200])
          Map.empty) =
     [Admit, Admit, Reject 4800]"
proof -
  let ?pol = "\<lparr>maxRequests = 2, windowSeconds = 5\<rparr>"
  let ?k = "\<lparr>client = ''10.0.0.1'', key_method = GET, key_path = ''/''\<rparr>"
  have 1: "case (Map.empty :: store) ?k of None \<Rightarrow> True | Some st \<Rightarrow> expires_at st < 0"
    by simp
  have 2: "\<forall>t\<in>set [100, 200]. t \<le> 0 + window_millis ?pol"
    by (simp add: window_millis_def)
  from evaluate_admits_up_to_max [OF 1 2]
  show ?thesis by (simp add: window_millis_def enumerate_eq_zip upt_rec)
qed

text \<open>
  C3. A counter is created for a key at \<open>t\<close> under a policy with window \<open>w\<close>; afterwards
  only requests for other keys arrive. Then the next request for the key after \<open>t + w\<close>
  finds the counter expired and is request number 1 of a new window: the counter is
  recreated with count 1 and a time-to-live of \<open>w\<close> from that request, and the decision is
  the one a key without any counter would get.
\<close>

theorem counter_resets_after_window:
  assumes "case s k of None \<Rightarrow> True | Some st \<Rightarrow> expires_at st < t"
    and "\<forall>q\<in>set qs. fst (snd q) \<noteq> k"
    and "t + window_millis pol < now"
  shows "snd (evaluate pol k t s) k = Some \<lparr>count = 1, expires_at = t + window_millis pol\<rparr> \<and>
         snd (evaluate_all qs (snd (evaluate pol k t s))) k =
           Some \<lparr>count = 1, expires_at = t + window_millis pol\<rparr> \<and>
         evaluate pol k now (snd (evaluate_all qs (snd (evaluate pol k t s)))) =
           (if 0 < maxRequests pol then Admit else Reject (window_millis pol),
            (snd (evaluate_all qs (snd (evaluate pol k t s))))
              (k \<mapsto> \<lparr>count = 1, expires_at = now + window_millis pol\<rparr>)) \<and>
         evaluate pol k now (snd (evaluate_all qs (snd (evaluate pol k t s)))) =
           evaluate pol k now ((snd (evaluate_all qs (snd (evaluate pol k t s))))(k := None))"
proof -
  let ?w = "window_millis pol"
  let ?s1 = "snd (evaluate pol k t s)"
  let ?s2 = "snd (evaluate_all qs ?s1)"
  have 1: "?s1 k = Some \<lparr>count = 1, expires_at = t + ?w\<rparr>"
    by (simp add: evaluate_fresh [where s = s and k = k, OF assms(1)])
  have 2: "?s2 k = Some \<lparr>count = 1, expires_at = t + ?w\<rparr>"
    using evaluate_all_other_key [OF assms(2), of ?s1] 1 by simp
  have "case ?s2 k of None \<Rightarrow> True | Some st \<Rightarrow> expires_at st < now"
    using 2 assms(3) by simp
  from evaluate_fresh [where s = "?s2" and k = k, OF this]
  have 3: "evaluate pol k now ?s2 =
           (if 0 < maxRequests pol then Admit else Reject ?w,
            ?s2(k \<mapsto> \<lparr>count = 1, expires_at = now + ?w\<rparr>))" .
  have "case (?s2(k := None)) k of None \<Rightarrow> True | Some st \<Rightarrow> expires_at st < now"
    by simp
  from evaluate_fresh [where s = "?s2(k := None)" and k = k, OF this, of pol]
  have 4: "evaluate pol k now ?s2 = evaluate pol k now (?s2(k := None))"
    using 3 by simp
  from 1 2 3 4 show ?thesis by (simp only: simp_thms)
qed

theorem counter_resets_after_window_witness:
  "evaluate \<lparr>maxRequests = 2, windowSeconds = 5\<rparr>
     \<lparr>client = ''10.0.0.1'', key_method = GET, key_path = ''/''\<rparr> 5100
     (snd (evaluate_all
        [(\<lparr>maxRequests = 30, windowSeconds = 60\<rparr>,
          \<lparr>client = ''10.0.0.1'', key_method = GET, key_path = ''/posts''\<rparr>, 2000)]
        (snd (evaluate \<lparr>maxRequests = 2, windowSeconds = 5\<rparr>
           \<lparr>client = ''10.0.0.1'', key_method = GET, key_path = ''/''\<rparr> 0 Map.empty)))) =
   (Admit,
    [\<lparr>client = ''10.0.0.1'', key_method = GET, key_path = ''/posts''\<rparr> \<mapsto>
       \<lparr>count = 1, expires_at = 62000\<rparr>,
     \<lparr>client = ''10.0.0.1'', key_method = GET, key_path = ''/''\<rparr> \<mapsto>
       \<lparr>count = 1, expires_at = 10100\<rparr>])"
proof -
  let ?pol = "\<lparr>maxRequests = 2, windowSeconds = 5\<rparr>"
  let ?k = "\<lparr>client = ''10.0.0.1'', key_method = GET, key_path = ''/''\<rparr>"
  let ?qs = "[(\<lparr>maxRequests = 30, windowSeconds = 60\<rparr>,
          \<lparr>client = ''10.0.0.1'', key_method = GET, key_path = ''/posts''\<rparr>, 2000::int)]"
  have 1: "case (Map.empty :: store) ?k of None \<Rightarrow> True | Some st \<Rightarrow> expires_at st < 0"
    by simp
  have 2: "\<forall>q\<in>set ?qs. fst (snd q) \<noteq> ?k" by simp
  have 3: "0 + window_millis ?pol < 5100" by (simp add: window_millis_def)
  from counter_resets_after_window [OF 1 2 3]
  show ?thesis
    by (simp add: evaluate_def increment_def window_millis_def Let_def fun_upd_twist)
qed

text \<open>
  C5. Two keys are the same only if caller, method and path template all agree; a key that
  differs in one of them has a counter of its own. Whatever requests are evaluated for
  other keys, also ones that exhaust their budgets, the counter of the key \<open>k'\<close> is
  untouched, and the decision for a request with key \<open>k'\<close> and the counter it leaves are
  those it would have had without them.
\<close>

theorem distinct_keys_independent:
  assumes "\<forall>q\<in>set qs. fst (snd q) \<noteq> k'"
  shows "snd (evaluate_all qs s) k' = s k' \<and>
         fst (evaluate pol' k' now (snd (evaluate_all qs s))) = fst (evaluate pol' k' now s) \<and>
         snd (evaluate pol' k' now (snd (evaluate_all qs s))) k' =
           snd (evaluate pol' k' now s) k' \<and>
         (\<forall>k. (k = k') =
            (client k = client k' \<and> key_method k = key_method k' \<and> key_path k = key_path k'))"
proof -
  have 1: "snd (evaluate_all qs s) k' = s k'"
    by (rule evaluate_all_other_key [OF assms])
  note 2 = evaluate_same_counter [where s = "snd (evaluate_all qs s)" and s' = s and k = k', OF 1, of pol' now]
  have 3: "\<forall>k. (k = k') =
            (client k = client k' \<and> key_method k = key_method k' \<and> key_path k = key_path k')"
    by auto
  from 1 2 3 show ?thesis by (simp only: simp_thms)
qed

theorem distinct_keys_independent_witness:
  "fst (evaluate_all
          (map (\<lambda>t. (\<lparr>maxRequests = 2, windowSeconds = 5\<rparr>,
                      \<lparr>client = ''10.0.0.1'', key_method = GET, key_path = ''/''\<rparr>, t))
               [0, 100, 200])
          Map.empty) ! 2 = Reject 4800 \<and>
   fst (evaluate \<lparr>maxRequests = 2, windowSeconds = 5\<rparr>
          \<lparr>client = ''10.0.0.2'', key_method = GET, key_path = ''/''\<rparr> 300
          (snd (evaluate_all
             (map (\<lambda>t. (\<lparr>maxRequests = 2, windowSeconds = 5\<rparr>,
                      \<lparr>client = ''10.0.0.1'', key_method = GET, key_path = ''/''\<rparr>, t))
               [0, 100, 200])
             Map.empty))) = Admit"
proof -
  let ?pol = "\<lparr>maxRequests = 2, windowSeconds = 5\<rparr>"
  let ?k = "\<lparr>client = ''10.0.0.1'', key_method = GET, key_path = ''/''\<rparr>"
  let ?k' = "\<lparr>client = ''10.0.0.2'', key_method = GET, key_path = ''/''\<rparr>"
  let ?qs = "map (\<lambda>t. (?pol, ?k, t)) [0, 100, 200 :: int]"
  have 1: "\<forall>q\<in>set ?qs. fst (snd q) \<noteq> ?k'" by simp
  have 2: "fst (evaluate ?pol ?k' 300 Map.empty) = Admit"
    by (simp add: evaluate_def increment_def Let_def)
  have 3: "fst (evaluate_all ?qs Map.empty) ! 2 = Reject 4800"
    by (simp add: evaluate_def increment_def window_millis_def Let_def)
  from distinct_keys_independent [OF 1, of Map.empty ?pol 300] 2 3
  show ?thesis by simp
qed

end
